theory Spec2Isabelle
  imports Main "HOL-Library.AList"
begin

section \<open>Data model (src/models/habit.py)\<close>

text \<open>
  A Python \<open>str\<close> is a sequence of code points and \<open>len\<close> counts them, so a string is
  a list over a type \<open>'c\<close> of code points; nothing below depends on what a code point is.
  A \<open>datetime.date\<close> is modelled by its proleptic Gregorian ordinal (\<open>date.toordinal()\<close>):
  comparison of dates is comparison of ordinals, and \<open>(d1 - d2).days\<close> is their difference.
\<close>

type_synonym date = int

datatype status = Pending | Completed

text \<open>
  The dictionary \<open>habit_data\<close> that the service hands to \<open>HabitRepository.create\<close> has every
  field of a habit but the identifier; the class \<open>Habit\<close> adds \<open>id\<close>.
\<close>

record 'c habit_data =
  name :: "'c list"
  description :: "'c list option"
  status :: status
  streak_days :: int
  last_completed_at :: "date option"

record 'c habit = "'c habit_data" +
  id_field :: int

record 'c CreateHabitRequest =
  create_name :: "'c list"
  create_description :: "'c list option"

record 'c UpdateHabitRequest =
  request_name :: "'c list option"
  request_description :: "'c list option"
  request_status :: "status option"

record StatsResponse =
  total_habits :: int
  completed_today :: int
  active_streaks_ge_3 :: int

text \<open>
  The \<open>updates\<close> dictionary of \<open>HabitRepository.update\<close>: for each key, \<open>None\<close> when the key
  is absent and \<open>Some v\<close> when it is present with value \<open>v\<close>. The service only ever builds
  dictionaries over these five keys.
\<close>

record 'c updates =
  set_name :: "'c list option"
  set_description :: "'c list option option"
  set_status :: "status option"
  set_streak_days :: "int option"
  set_last_completed_at :: "date option option"

subsection \<open>Errors (src/services/habit_service.py, pydantic)\<close>

text \<open>
  \<open>InvalidHabitDataError(field, value, constraint)\<close> keeps its three components; the
  \<open>value\<close> is kept as the value that the source renders with \<open>str\<close> or \<open>isoformat\<close>.
  \<open>DuplicateCompletionError\<close> carries the habit name and the date (rendered by
  \<open>isoformat\<close> in the source). \<open>ValidationError\<close> is pydantic's exception, raised by the
  constructor of a model class; it is not a \<open>HabitServiceError\<close>.
\<close>

datatype field = Field_habit_id | Field_completion_date | Field_update_request

datatype invalid_value = Value_int int | Value_date date | Value_empty

datatype constraint = Positive_integer | No_future_dates | At_least_one_field

datatype 'c error =
    InvalidHabitData field invalid_value constraint
  | HabitNotFound int
  | DuplicateCompletion "'c list" date
  | ValidationError

text \<open>Whether a result is a raised \<open>InvalidHabitDataError\<close>.\<close>

fun is_InvalidHabitData :: "'c error + 'a \<Rightarrow> bool" where
  "is_InvalidHabitData (Inl (InvalidHabitData f v c)) = True"
| "is_InvalidHabitData _ = False"

subsection \<open>Field constraints of the pydantic models\<close>

definition description_ok :: "'c list option \<Rightarrow> bool" where
  "description_ok d = (case d of None \<Rightarrow> True | Some s \<Rightarrow> length s \<le> 280)"

definition Habit_valid :: "'c habit \<Rightarrow> bool" where
  "Habit_valid h =
     (1 \<le> length (name h) \<and> length (name h) \<le> 80 \<and> description_ok (description h)
      \<and> 0 \<le> streak_days h)"

text \<open>\<open>Habit(**data)\<close>: the constructor validates and raises \<open>ValidationError\<close>.\<close>

definition new_Habit :: "'c habit \<Rightarrow> 'c error + 'c habit" where
  "new_Habit h = (if Habit_valid h then Inr h else Inl ValidationError)"

definition CreateHabitRequest_valid :: "'c CreateHabitRequest \<Rightarrow> bool" where
  "CreateHabitRequest_valid q =
     (1 \<le> length (create_name q) \<and> length (create_name q) \<le> 80
      \<and> description_ok (create_description q))"

definition UpdateHabitRequest_valid :: "'c UpdateHabitRequest \<Rightarrow> bool" where
  "UpdateHabitRequest_valid q =
     ((case request_name q of None \<Rightarrow> True | Some n \<Rightarrow> 1 \<le> length n \<and> length n \<le> 80)
      \<and> description_ok (request_description q))"

definition StatsResponse_valid :: "StatsResponse \<Rightarrow> bool" where
  "StatsResponse_valid s =
     (0 \<le> total_habits s \<and> 0 \<le> completed_today s \<and> 0 \<le> active_streaks_ge_3 s)"

definition new_StatsResponse :: "StatsResponse \<Rightarrow> 'c error + StatsResponse" where
  "new_StatsResponse s = (if StatsResponse_valid s then Inr s else Inl ValidationError)"

section \<open>The store (src/repositories/habit_repository.py)\<close>

text \<open>
  \<open>_habits\<close> is a Python dictionary, which keeps insertion order: an association list in
  which assignment to a present key replaces the value in place and assignment to an
  absent key appends (\<open>AList.update\<close>), and \<open>del\<close> removes the entry (\<open>AList.delete\<close>).
\<close>

record 'c repository =
  habits :: "(int \<times> 'c habit) list"
  next_id :: int

definition HabitRepository :: "'c repository" where
  "HabitRepository = \<lparr>habits = [], next_id = 1\<rparr>"

definition create :: "'c repository \<Rightarrow> 'c habit_data \<Rightarrow> ('c error + 'c habit) \<times> 'c repository" where
  "create r habit_data =
     (case new_Habit \<lparr>name = name habit_data, description = description habit_data,
                      status = status habit_data, streak_days = streak_days habit_data,
                      last_completed_at = last_completed_at habit_data,
                      id_field = next_id r\<rparr> of
        Inl e \<Rightarrow> (Inl e, r)
      | Inr habit \<Rightarrow>
          (Inr habit, r\<lparr>habits := AList.update (next_id r) habit (habits r),
                         next_id := next_id r + 1\<rparr>))"

definition get_by_id :: "'c repository \<Rightarrow> int \<Rightarrow> 'c habit option" where
  "get_by_id r habit_id = map_of (habits r) habit_id"

definition get_all :: "'c repository \<Rightarrow> 'c habit list" where
  "get_all r = map snd (habits r)"

definition apply_updates :: "'c updates \<Rightarrow> 'c habit \<Rightarrow> 'c habit" where
  "apply_updates u h =
     h\<lparr>name := (case set_name u of None \<Rightarrow> name h | Some v \<Rightarrow> v),
       description := (case set_description u of None \<Rightarrow> description h | Some v \<Rightarrow> v),
       status := (case set_status u of None \<Rightarrow> status h | Some v \<Rightarrow> v),
       streak_days := (case set_streak_days u of None \<Rightarrow> streak_days h | Some v \<Rightarrow> v),
       last_completed_at :=
         (case set_last_completed_at u of None \<Rightarrow> last_completed_at h | Some v \<Rightarrow> v)\<rparr>"

definition update ::
  "'c repository \<Rightarrow> int \<Rightarrow> 'c updates \<Rightarrow> ('c error + 'c habit option) \<times> 'c repository" where
  "update r habit_id u =
     (case map_of (habits r) habit_id of
        None \<Rightarrow> (Inr None, r)
      | Some current_habit \<Rightarrow>
          (case new_Habit (apply_updates u current_habit) of
             Inl e \<Rightarrow> (Inl e, r)
           | Inr updated_habit \<Rightarrow>
               (Inr (Some updated_habit),
                r\<lparr>habits := AList.update habit_id updated_habit (habits r)\<rparr>)))"

definition delete :: "'c repository \<Rightarrow> int \<Rightarrow> bool \<times> 'c repository" where
  "delete r habit_id =
     (if map_of (habits r) habit_id \<noteq> None
      then (True, r\<lparr>habits := AList.delete habit_id (habits r)\<rparr>)
      else (False, r))"

section \<open>The engine (src/services/habit_service.py)\<close>

text \<open>
  Every operation takes the repository and returns its result, an error for a raised
  exception, together with the repository it leaves behind. \<open>date.today()\<close> is the
  parameter \<open>today\<close>. The \<open>isinstance\<close> tests hold by typing: an identifier is an \<open>int\<close>, a
  completion date a \<open>date\<close>.
\<close>

definition create_habit ::
  "'c CreateHabitRequest \<Rightarrow> 'c repository \<Rightarrow> ('c error + 'c habit) \<times> 'c repository" where
  "create_habit request r =
     create r \<lparr>name = create_name request, description = create_description request,
               status = Pending, streak_days = 0, last_completed_at = None\<rparr>"

definition get_habit_by_id :: "int \<Rightarrow> 'c repository \<Rightarrow> 'c error + 'c habit" where
  "get_habit_by_id habit_id r =
     (if habit_id \<le> 0
      then Inl (InvalidHabitData Field_habit_id (Value_int habit_id) Positive_integer)
      else (case get_by_id r habit_id of
              None \<Rightarrow> Inl (HabitNotFound habit_id)
            | Some habit \<Rightarrow> Inr habit))"

definition update_habit ::
  "int \<Rightarrow> 'c UpdateHabitRequest \<Rightarrow> 'c repository \<Rightarrow> ('c error + 'c habit) \<times> 'c repository" where
  "update_habit habit_id request r =
     (if habit_id \<le> 0
      then (Inl (InvalidHabitData Field_habit_id (Value_int habit_id) Positive_integer), r)
      else (case get_habit_by_id habit_id r of
              Inl e \<Rightarrow> (Inl e, r)
            | Inr existing_habit \<Rightarrow>
                if request_name request = None \<and> request_description request = None
                   \<and> request_status request = None
                then (Inl (InvalidHabitData Field_update_request Value_empty At_least_one_field), r)
                else (case update r habit_id
                             \<lparr>set_name = request_name request,
                              set_description = map_option Some (request_description request),
                              set_status = request_status request,
                              set_streak_days = None,
                              set_last_completed_at = None\<rparr> of
                        (Inl e, r') \<Rightarrow> (Inl e, r')
                      | (Inr None, r') \<Rightarrow> (Inl (HabitNotFound habit_id), r')
                      | (Inr (Some updated_habit), r') \<Rightarrow> (Inr updated_habit, r'))))"

definition delete_habit :: "int \<Rightarrow> 'c repository \<Rightarrow> ('c error + unit) \<times> 'c repository" where
  "delete_habit habit_id r =
     (if habit_id \<le> 0
      then (Inl (InvalidHabitData Field_habit_id (Value_int habit_id) Positive_integer), r)
      else (case delete r habit_id of
              (True, r') \<Rightarrow> (Inr (), r')
            | (False, r') \<Rightarrow> (Inl (HabitNotFound habit_id), r')))"

definition calculate_new_streak :: "'c habit \<Rightarrow> date \<Rightarrow> int" where
  "calculate_new_streak habit completion_date =
     (case last_completed_at habit of
        None \<Rightarrow> 1
      | Some previous \<Rightarrow>
          (let days_diff = completion_date - previous
           in if days_diff = 1 then streak_days habit + 1 else 1))"

definition complete_habit_today ::
  "date \<Rightarrow> int \<Rightarrow> date option \<Rightarrow> 'c repository \<Rightarrow> ('c error + 'c habit) \<times> 'c repository" where
  "complete_habit_today today habit_id completion_date_arg r =
     (if habit_id \<le> 0
      then (Inl (InvalidHabitData Field_habit_id (Value_int habit_id) Positive_integer), r)
      else
        (let completion_date = (case completion_date_arg of None \<Rightarrow> today | Some d \<Rightarrow> d)
         in if completion_date > today
            then (Inl (InvalidHabitData Field_completion_date (Value_date completion_date)
                         No_future_dates), r)
            else (case get_habit_by_id habit_id r of
                    Inl e \<Rightarrow> (Inl e, r)
                  | Inr habit \<Rightarrow>
                      if last_completed_at habit = Some completion_date
                      then (Inl (DuplicateCompletion (name habit) completion_date), r)
                      else (case update r habit_id
                                   \<lparr>set_name = None, set_description = None,
                                    set_status = Some Completed,
                                    set_streak_days =
                                      Some (calculate_new_streak habit completion_date),
                                    set_last_completed_at = Some (Some completion_date)\<rparr> of
                              (Inl e, r') \<Rightarrow> (Inl e, r')
                            | (Inr None, r') \<Rightarrow> (Inl (HabitNotFound habit_id), r')
                            | (Inr (Some updated_habit), r') \<Rightarrow> (Inr updated_habit, r')))))"

text \<open>\<open>sum(1 for habit in habits if c habit)\<close>\<close>

definition count_if :: "('a \<Rightarrow> bool) \<Rightarrow> 'a list \<Rightarrow> int" where
  "count_if c xs = sum_list (map (\<lambda>x. 1) (filter c xs))"

definition get_stats ::
  "date \<Rightarrow> 'c repository \<Rightarrow> ('c error + StatsResponse) \<times> 'c repository" where
  "get_stats today r =
     (let habits = get_all r
      in (new_StatsResponse
            \<lparr>total_habits = int (length habits),
             completed_today = count_if (\<lambda>habit. last_completed_at habit = Some today) habits,
             active_streaks_ge_3 = count_if (\<lambda>habit. streak_days habit \<ge> 3) habits\<rparr>,
          r))"

section \<open>Runs of the engine\<close>

text \<open>
  \<open>reachable today r\<close>: the engine, started on a fresh \<open>HabitRepository()\<close>, can have left the
  store in state \<open>r\<close> by the day \<open>today\<close>. Calls take any arguments, succeed or fail, and
  read the current day from the clock; between calls the calendar day may advance and
  never goes back. \<open>get_habits\<close>, \<open>get_habit_by_id\<close> and \<open>get_stats\<close> only read the store.
\<close>

inductive reachable :: "date \<Rightarrow> 'c repository \<Rightarrow> bool" where
  fresh: "reachable today HabitRepository"
| later: "reachable today r \<Longrightarrow> today \<le> today' \<Longrightarrow> reachable today' r"
| created: "reachable today r \<Longrightarrow> reachable today (snd (create_habit request r))"
| updated: "reachable today r \<Longrightarrow> reachable today (snd (update_habit habit_id request r))"
| deleted: "reachable today r \<Longrightarrow> reachable today (snd (delete_habit habit_id r))"
| completed:
    "reachable today r \<Longrightarrow> reachable today (snd (complete_habit_today today habit_id d r))"

text \<open>
  A sequence of calls on the engine; a completion carries the day its call reads from the
  clock. \<open>created_ids calls r\<close> lists, in order, the identifiers of the habits that the
  successful \<open>create_habit\<close> calls of the sequence return, started in store \<open>r\<close>;
  \<open>create_requests calls\<close> lists the requests of its \<open>create_habit\<close> calls.
\<close>

datatype 'c call =
    Create "'c CreateHabitRequest"
  | Update int "'c UpdateHabitRequest"
  | Delete int
  | Complete date int "date option"

fun created_ids :: "'c call list \<Rightarrow> 'c repository \<Rightarrow> int list" where
  "created_ids [] r = []"
| "created_ids (Create request # calls) r =
     (case create_habit request r of
        (Inl e, r') \<Rightarrow> created_ids calls r'
      | (Inr habit, r') \<Rightarrow> id_field habit # created_ids calls r')"
| "created_ids (Update habit_id request # calls) r =
     created_ids calls (snd (update_habit habit_id request r))"
| "created_ids (Delete habit_id # calls) r =
     created_ids calls (snd (delete_habit habit_id r))"
| "created_ids (Complete today habit_id d # calls) r =
     created_ids calls (snd (complete_habit_today today habit_id d r))"

fun create_requests :: "'c call list \<Rightarrow> 'c CreateHabitRequest list" where
  "create_requests [] = []"
| "create_requests (Create request # calls) = request # create_requests calls"
| "create_requests (_ # calls) = create_requests calls"

subsection \<open>The invariant of the store\<close>

text \<open>
  What holds of a reachable store on day \<open>today\<close>: the next identifier is positive, no key
  occurs twice, and for every entry \<open>(k, h)\<close> the key is a positive identifier already
  handed out, it is the habit's own identifier, the habit
  satisfies the field constraints of \<open>Habit\<close>, and its streak and last completion date
  agree, the date being no later than \<open>today\<close>.
\<close>

definition entry_ok :: "date \<Rightarrow> int \<Rightarrow> int \<times> 'c habit \<Rightarrow> bool" where
  "entry_ok today n e =
     (0 < fst e \<and> fst e < n \<and> id_field (snd e) = fst e \<and> Habit_valid (snd e)
      \<and> (case last_completed_at (snd e) of
            None \<Rightarrow> streak_days (snd e) = 0
          | Some d \<Rightarrow> d \<le> today \<and> 1 \<le> streak_days (snd e)))"

definition repo_inv :: "date \<Rightarrow> 'c repository \<Rightarrow> bool" where
  "repo_inv today r =
     (0 < next_id r \<and> distinct (map fst (habits r))
      \<and> list_all (entry_ok today (next_id r)) (habits r))"

subsection \<open>Example stores\<close>

text \<open>
  The scenario of the specification: the habit "Exercise" is created in a fresh store and
  then completed on 2024-01-15, whose ordinal is 738900.
\<close>

definition exercise :: "char CreateHabitRequest" where
  "exercise = \<lparr>create_name = ''Exercise'', create_description = None\<rparr>"

definition exercise_habit :: "char habit" where
  "exercise_habit = \<lparr>name = ''Exercise'', description = None, status = Pending,
     streak_days = 0, last_completed_at = None, id_field = 1\<rparr>"

definition store_created :: "char repository" where
  "store_created = snd (create_habit exercise HabitRepository)"

definition store_completed :: "char repository" where
  "store_completed = snd (complete_habit_today 738900 1 (Some 738900) store_created)"

definition empty_request :: "char UpdateHabitRequest" where
  "empty_request = \<lparr>request_name = None, request_description = None, request_status = None\<rparr>"

definition mark_completed :: "char UpdateHabitRequest" where
  "mark_completed =
     \<lparr>request_name = None, request_description = None, request_status = Some Completed\<rparr>"

definition mark_pending :: "char UpdateHabitRequest" where
  "mark_pending =
     \<lparr>request_name = None, request_description = None, request_status = Some Pending\<rparr>"

definition example_calls :: "char call list" where
  "example_calls =
     [Create exercise, Delete 1, Create exercise, Complete 738900 2 None, Delete 2,
      Create exercise]"

section \<open>Association lists\<close>

lemma set_update_subset: "set (AList.update k v xs) \<subseteq> insert (k, v) (set xs)"
  by (induction xs) auto

lemma list_all_update:
  "list_all P xs \<Longrightarrow> P (k, v) \<Longrightarrow> list_all P (AList.update k v xs)"
  using set_update_subset[of k v xs] by (auto simp: list_all_iff)

lemma list_all_delete: "list_all P xs \<Longrightarrow> list_all P (AList.delete k xs)"
  by (auto simp: list_all_iff AList.delete_eq)

section \<open>The invariant holds of every reachable store\<close>

lemma entry_ok_mono:
  "entry_ok t n e \<Longrightarrow> t \<le> t' \<Longrightarrow> n \<le> n' \<Longrightarrow> entry_ok t' n' e"
  by (auto simp: entry_ok_def split: option.splits)

lemma repo_inv_fresh: "repo_inv t HabitRepository"
  by (simp add: repo_inv_def HabitRepository_def)

lemma repo_inv_later: "repo_inv t r \<Longrightarrow> t \<le> t' \<Longrightarrow> repo_inv t' r"
  by (auto simp: repo_inv_def list_all_iff intro: entry_ok_mono)

lemma repo_inv_lookup:
  "repo_inv t r \<Longrightarrow> map_of (habits r) k = Some h \<Longrightarrow> entry_ok t (next_id r) (k, h)"
  by (auto simp: repo_inv_def list_all_iff dest: map_of_SomeD)

lemma repo_inv_create: "repo_inv t r \<Longrightarrow> repo_inv t (snd (create_habit q r))"
  apply (auto simp: create_habit_def create_def new_Habit_def repo_inv_def distinct_update
    intro!: list_all_update)
  apply (auto simp: list_all_iff entry_ok_def split: option.splits)
  done

text \<open>
  \<open>HabitRepository.update\<close> keeps the invariant when the merged habit, once it has passed
  the constructor's validation, satisfies the entry condition.
\<close>

lemma repo_inv_update_repo:
  assumes "repo_inv t r"
    and "\<And>h. map_of (habits r) k = Some h \<Longrightarrow> Habit_valid (apply_updates u h) \<Longrightarrow>
           entry_ok t (next_id r) (k, apply_updates u h)"
  shows "repo_inv t (snd (update r k u))"
  using assms
  by (auto simp: update_def new_Habit_def repo_inv_def distinct_update
      intro!: list_all_update split: option.splits)

lemma repo_inv_update: "repo_inv t r \<Longrightarrow> repo_inv t (snd (update_habit k q r))"
proof -
  assume inv: "repo_inv t r"
  let ?u = "\<lparr>set_name = request_name q,
             set_description = map_option Some (request_description q),
             set_status = request_status q, set_streak_days = None,
             set_last_completed_at = None\<rparr>"
  have "repo_inv t (snd (update r k ?u))"
  proof (rule repo_inv_update_repo[OF inv])
    fix h assume h: "map_of (habits r) k = Some h" and v: "Habit_valid (apply_updates ?u h)"
    from repo_inv_lookup[OF inv h] v show "entry_ok t (next_id r) (k, apply_updates ?u h)"
      by (auto simp: entry_ok_def apply_updates_def split: option.splits)
  qed
  then show ?thesis using inv
    by (auto simp: update_habit_def split: sum.splits prod.splits option.splits)
qed

lemma repo_inv_delete: "repo_inv t r \<Longrightarrow> repo_inv t (snd (delete_habit k r))"
  by (auto simp: delete_habit_def delete_def repo_inv_def distinct_delete
      intro!: list_all_delete)

lemma repo_inv_complete:
  "repo_inv t r \<Longrightarrow> repo_inv t (snd (complete_habit_today t k d r))"
proof -
  assume inv: "repo_inv t r"
  define cd where "cd = (case d of None \<Rightarrow> t | Some x \<Rightarrow> x)"
  show ?thesis
  proof (cases "0 < k \<and> cd \<le> t")
    case False
    then show ?thesis using inv
      by (auto simp: complete_habit_today_def cd_def Let_def)
  next
    case True
    show ?thesis
    proof (cases "map_of (habits r) k")
      case None
      then show ?thesis using inv True
        by (auto simp: complete_habit_today_def cd_def Let_def get_habit_by_id_def get_by_id_def)
    next
      case (Some h)
      let ?u = "\<lparr>set_name = None, set_description = None, set_status = Some Completed,
                 set_streak_days = Some (calculate_new_streak h cd),
                 set_last_completed_at = Some (Some cd)\<rparr>"
      have "repo_inv t (snd (update r k ?u))"
      proof (rule repo_inv_update_repo[OF inv])
        fix h' assume h': "map_of (habits r) k = Some h'"
          and v: "Habit_valid (apply_updates ?u h')"
        from repo_inv_lookup[OF inv h'] v h' Some True
        show "entry_ok t (next_id r) (k, apply_updates ?u h')"
          by (auto simp: entry_ok_def apply_updates_def calculate_new_streak_def Let_def
              split: option.splits)
      qed
      then show ?thesis using inv True Some
        by (auto simp: complete_habit_today_def cd_def[symmetric] Let_def get_habit_by_id_def
            get_by_id_def split: sum.splits prod.splits option.splits)
    qed
  qed
qed

lemma reachable_inv: "reachable t r \<Longrightarrow> repo_inv t r"
  by (induction rule: reachable.induct)
    (auto intro: repo_inv_fresh repo_inv_later repo_inv_create repo_inv_update
      repo_inv_delete repo_inv_complete)

section \<open>The example stores\<close>

lemma store_created_eq: "store_created = \<lparr>habits = [(1, exercise_habit)], next_id = 2\<rparr>"
  by (simp add: store_created_def exercise_def exercise_habit_def create_habit_def create_def
      new_Habit_def Habit_valid_def description_ok_def HabitRepository_def)

lemma store_completed_eq:
  "store_completed =
     \<lparr>habits = [(1, exercise_habit\<lparr>status := Completed, streak_days := 1,
                                    last_completed_at := Some 738900\<rparr>)],
      next_id = 2\<rparr>"
  by (simp add: store_completed_def store_created_eq exercise_habit_def
      complete_habit_today_def get_habit_by_id_def get_by_id_def update_def apply_updates_def
      calculate_new_streak_def new_Habit_def Habit_valid_def description_ok_def)

lemma reachable_store_created: "reachable today store_created"
  unfolding store_created_def by (intro reachable.created reachable.fresh)

lemma reachable_store_completed: "738900 \<le> today \<Longrightarrow> reachable today store_completed"
  unfolding store_completed_def
  by (rule reachable.later[OF reachable.completed[OF reachable_store_created]])

section \<open>Completion and streaks\<close>

lemma complete_failure_keeps_store:
  "fst (complete_habit_today t k d r) = Inl e \<Longrightarrow> snd (complete_habit_today t k d r) = r"
  by (auto simp: complete_habit_today_def Let_def update_def new_Habit_def
      split: if_splits sum.splits option.splits)

lemma complete_success:
  assumes inv: "repo_inv today r" and h: "map_of (habits r) habit_id = Some h"
    and d: "(case d of None \<Rightarrow> today | Some x \<Rightarrow> x) = D"
    and D: "D \<le> today" and nd: "last_completed_at h \<noteq> Some D"
  shows "complete_habit_today today habit_id d r =
     (let h' = h\<lparr>status := Completed,
                 streak_days := (case last_completed_at h of
                                   None \<Rightarrow> 1
                                 | Some l \<Rightarrow> if D - l = 1 then streak_days h + 1 else 1),
                 last_completed_at := Some D\<rparr>
      in (Inr h', r\<lparr>habits := AList.update habit_id h' (habits r)\<rparr>))"
proof -
  from repo_inv_lookup[OF inv h] have pos: "0 < habit_id" and v: "Habit_valid h"
    and s: "0 \<le> streak_days h"
    by (auto simp: entry_ok_def Habit_valid_def)
  have "complete_habit_today today habit_id d r =
          (case update r habit_id
                  \<lparr>set_name = None, set_description = None, set_status = Some Completed,
                   set_streak_days = Some (calculate_new_streak h D),
                   set_last_completed_at = Some (Some D)\<rparr> of
             (Inl e, r') \<Rightarrow> (Inl e, r')
           | (Inr None, r') \<Rightarrow> (Inl (HabitNotFound habit_id), r')
           | (Inr (Some updated_habit), r') \<Rightarrow> (Inr updated_habit, r'))"
    using pos h d D nd
    by (simp add: complete_habit_today_def Let_def get_habit_by_id_def get_by_id_def)
  then show ?thesis using v s h
    by (auto simp: Let_def update_def new_Habit_def apply_updates_def
        calculate_new_streak_def Habit_valid_def split: option.splits)
qed

text \<open>
  C1. On a reachable store, for a habit \<open>h\<close> stored under \<open>habit_id\<close> and a completion
  date \<open>D\<close>, given explicitly or, when the date argument is omitted, today, that is not
  after today and is not the habit's stored \<open>last_completed_at\<close>, \<open>complete_habit_today\<close>
  succeeds: it returns the habit with \<open>status = completed\<close>, \<open>last_completed_at = D\<close> and
  \<open>streak_days\<close> equal to 1 when the habit was never completed, to the old streak plus 1
  when \<open>D\<close> is exactly one day after the stored date, and to 1 for every other gap, also
  when \<open>D\<close> is before the stored date; and the store it leaves is the old store with this
  one entry replaced by the returned habit.
\<close>

theorem complete_habit_streak:
  assumes "reachable today r" and "map_of (habits r) habit_id = Some h"
    and "(case d of None \<Rightarrow> today | Some x \<Rightarrow> x) = D"
    and "D \<le> today" and "last_completed_at h \<noteq> Some D"
  shows "complete_habit_today today habit_id d r =
     (let h' = h\<lparr>status := Completed,
                 streak_days := (case last_completed_at h of
                                   None \<Rightarrow> 1
                                 | Some l \<Rightarrow> if D - l = 1 then streak_days h + 1 else 1),
                 last_completed_at := Some D\<rparr>
      in (Inr h', r\<lparr>habits := AList.update habit_id h' (habits r)\<rparr>))"
  using complete_success[OF reachable_inv[OF assms(1)] assms(2-5)] .

theorem complete_habit_streak_witness:
  "reachable 738901 store_completed
   \<and> map_of (habits store_completed) 1
       = Some (exercise_habit\<lparr>status := Completed, streak_days := 1,
                               last_completed_at := Some 738900\<rparr>)
   \<and> complete_habit_today 738901 1 None store_completed =
       (Inr (exercise_habit\<lparr>status := Completed, streak_days := 2,
                              last_completed_at := Some 738901\<rparr>),
        \<lparr>habits = [(1, exercise_habit\<lparr>status := Completed, streak_days := 2,
                                       last_completed_at := Some 738901\<rparr>)],
         next_id = 2\<rparr>)
   \<and> reachable 738905 store_completed
   \<and> complete_habit_today 738905 1 (Some 738899) store_completed =
       (Inr (exercise_habit\<lparr>status := Completed, streak_days := 1,
                              last_completed_at := Some 738899\<rparr>),
        \<lparr>habits = [(1, exercise_habit\<lparr>status := Completed, streak_days := 1,
                                       last_completed_at := Some 738899\<rparr>)],
         next_id = 2\<rparr>)"
proof -
  let ?h = "exercise_habit\<lparr>status := Completed, streak_days := 1,
                            last_completed_at := Some 738900\<rparr>"
  have r: "reachable 738901 store_completed"
    by (rule reachable_store_completed) simp
  have r': "reachable 738905 store_completed"
    by (rule reachable_store_completed) simp
  have l: "map_of (habits store_completed) 1 = Some ?h"
    by (simp add: store_completed_eq)
  have c: "(case None of None \<Rightarrow> 738901 | Some x \<Rightarrow> x) = (738901::int)" by simp
  have c': "(case Some 738899 of None \<Rightarrow> 738905 | Some x \<Rightarrow> x) = (738899::int)" by simp
  have d: "(738901::int) \<le> 738901" by simp
  have d': "(738899::int) \<le> 738905" by simp
  have n: "last_completed_at ?h \<noteq> Some 738901" by simp
  have n': "last_completed_at ?h \<noteq> Some 738899" by simp
  from complete_habit_streak[OF r l c d n] complete_habit_streak[OF r' l c' d' n'] r r' l
  show ?thesis
    by (simp add: Let_def store_completed_eq exercise_habit_def)
qed

text \<open>
  C2. On a reachable store, if the habit stored under \<open>habit_id\<close> has \<open>last_completed_at\<close>
  equal to \<open>D\<close>, then \<open>complete_habit_today\<close> with completion date \<open>D\<close>, given explicitly
  or, when the date argument is omitted, being today, fails with \<open>DuplicateCompletion\<close>
  carrying the habit's name and \<open>D\<close>, and leaves the store, hence the stored record, as it
  was. More generally, whenever \<open>complete_habit_today\<close> fails, on any store and with any
  arguments, the store it leaves is the store it was given.
\<close>

theorem duplicate_completion:
  assumes "reachable today r" and "map_of (habits r) habit_id = Some h"
    and "last_completed_at h = Some D"
    and "(case d of None \<Rightarrow> today | Some x \<Rightarrow> x) = D"
  shows "complete_habit_today today habit_id d r =
           (Inl (DuplicateCompletion (name h) D), r)
         \<and> (\<forall>t k d' (r' :: 'c repository) e.
              fst (complete_habit_today t k d' r') = Inl e \<longrightarrow>
              snd (complete_habit_today t k d' r') = r')"
proof -
  from repo_inv_lookup[OF reachable_inv[OF assms(1)] assms(2)] assms(3)
  have "0 < habit_id" and "D \<le> today"
    by (auto simp: entry_ok_def)
  then have "complete_habit_today today habit_id d r =
           (Inl (DuplicateCompletion (name h) D), r)"
    using assms(2,3,4)
    by (simp add: complete_habit_today_def Let_def get_habit_by_id_def get_by_id_def)
  then show ?thesis
    by (simp add: complete_failure_keeps_store)
qed

theorem duplicate_completion_witness:
  "reachable 738900 store_completed
   \<and> complete_habit_today 738900 1 None store_completed =
       (Inl (DuplicateCompletion ''Exercise'' 738900), store_completed)
   \<and> reachable 738905 store_completed
   \<and> complete_habit_today 738905 1 (Some 738900) store_completed =
       (Inl (DuplicateCompletion ''Exercise'' 738900), store_completed)"
proof -
  let ?h = "exercise_habit\<lparr>status := Completed, streak_days := 1,
                            last_completed_at := Some 738900\<rparr>"
  have r: "reachable 738900 store_completed"
    by (rule reachable_store_completed) simp
  have r': "reachable 738905 store_completed"
    by (rule reachable_store_completed) simp
  have l: "map_of (habits store_completed) 1 = Some ?h"
    by (simp add: store_completed_eq)
  have n: "last_completed_at ?h = Some 738900" by simp
  have c: "(case None of None \<Rightarrow> 738900 | Some x \<Rightarrow> x) = (738900::int)" by simp
  have c': "(case Some 738900 of None \<Rightarrow> 738905 | Some x \<Rightarrow> x) = (738900::int)" by simp
  have e: "name ?h = ''Exercise''" by (simp add: exercise_habit_def)
  from duplicate_completion[OF r l n c] have a:
    "complete_habit_today 738900 1 None store_completed =
       (Inl (DuplicateCompletion (name ?h) 738900), store_completed)" ..
  from duplicate_completion[OF r' l n c'] have b:
    "complete_habit_today 738905 1 (Some 738900) store_completed =
       (Inl (DuplicateCompletion (name ?h) 738900), store_completed)" ..
  from r a r' b show ?thesis unfolding e by (intro conjI)
qed

section \<open>The streak invariant\<close>

text \<open>
  C3. Every habit of every store that the engine operations \<open>create_habit\<close>, \<open>update_habit\<close>,
  \<open>complete_habit_today\<close> and \<open>delete_habit\<close> can reach has \<open>streak_days = 0\<close> if and only if
  its \<open>last_completed_at\<close> is \<open>None\<close>, and \<open>streak_days \<ge> 1\<close> whenever \<open>last_completed_at\<close> is
  not \<open>None\<close>.
\<close>

theorem streak_invariant:
  assumes "reachable today r" and "(k, h) \<in> set (habits r)"
  shows "(streak_days h = 0 \<longleftrightarrow> last_completed_at h = None)
         \<and> (last_completed_at h \<noteq> None \<longrightarrow> 1 \<le> streak_days h)"
  using reachable_inv[OF assms(1)] assms(2)
  by (auto simp: repo_inv_def list_all_iff entry_ok_def split: option.splits)

theorem streak_invariant_witness:
  "reachable 738900 store_completed
   \<and> (1, exercise_habit\<lparr>status := Completed, streak_days := 1,
                          last_completed_at := Some 738900\<rparr>) \<in> set (habits store_completed)
   \<and> 1 \<le> streak_days (exercise_habit\<lparr>status := Completed, streak_days := 1,
                          last_completed_at := Some 738900\<rparr>)"
proof -
  let ?h = "exercise_habit\<lparr>status := Completed, streak_days := 1,
                            last_completed_at := Some 738900\<rparr>"
  have r: "reachable 738900 store_completed"
    by (rule reachable_store_completed) simp
  have m: "(1, ?h) \<in> set (habits store_completed)"
    by (simp add: store_completed_eq)
  from streak_invariant[OF r m] r m show ?thesis
    by simp
qed

section \<open>Field updates\<close>

lemma update_success:
  assumes inv: "repo_inv today r" and h: "map_of (habits r) habit_id = Some h"
    and q: "UpdateHabitRequest_valid q"
    and ne: "request_name q \<noteq> None \<or> request_description q \<noteq> None
             \<or> request_status q \<noteq> None"
  shows "update_habit habit_id q r =
     (let h' = h\<lparr>name := (case request_name q of None \<Rightarrow> name h | Some n \<Rightarrow> n),
                 description := (case request_description q of
                                   None \<Rightarrow> description h | Some d \<Rightarrow> Some d),
                 status := (case request_status q of None \<Rightarrow> status h | Some s \<Rightarrow> s)\<rparr>
      in (Inr h', r\<lparr>habits := AList.update habit_id h' (habits r)\<rparr>))"
proof -
  from repo_inv_lookup[OF inv h] have pos: "0 < habit_id" and v: "Habit_valid h"
    by (auto simp: entry_ok_def)
  show ?thesis using pos v h q ne
    by (auto simp: update_habit_def Let_def get_habit_by_id_def get_by_id_def
        update_def new_Habit_def apply_updates_def Habit_valid_def UpdateHabitRequest_valid_def
        description_ok_def split: option.splits)
qed

text \<open>
  On any store and with any arguments, succeeding or failing, \<open>update_habit\<close> leaves the
  keys of the store and, under each key, the habit's \<open>id\<close>, \<open>streak_days\<close> and
  \<open>last_completed_at\<close> as they were.
\<close>

lemma update_habit_keeps_streak:
  "map_option (\<lambda>h. (id_field h, streak_days h, last_completed_at h))
     (map_of (habits (snd (update_habit habit_id q r))) k)
   = map_option (\<lambda>h. (id_field h, streak_days h, last_completed_at h))
     (map_of (habits r) k)"
  by (auto simp: update_habit_def update_def get_habit_by_id_def get_by_id_def new_Habit_def
      apply_updates_def update_conv' split: option.splits)

text \<open>
  C4. On a reachable store, for a habit \<open>h\<close> stored under \<open>habit_id\<close> and an
  \<open>UpdateHabitRequest\<close> with at least one non-null field, \<open>update_habit\<close> succeeds and
  returns a habit \<open>h'\<close> that replaces the entry of \<open>habit_id\<close> and nothing else in the
  store. Each of \<open>name\<close>, \<open>description\<close> and \<open>status\<close> of \<open>h'\<close> is the supplied value when
  the request supplies one and the old value otherwise; \<open>id\<close>, \<open>streak_days\<close> and
  \<open>last_completed_at\<close> are those of \<open>h\<close>, also when the status changes. Moreover no call
  of \<open>update_habit\<close>, on any store, with any identifier and request, changes the \<open>id\<close>,
  \<open>streak_days\<close> or \<open>last_completed_at\<close> stored under any key.
\<close>

theorem update_habit_frame:
  assumes "reachable today r" and "map_of (habits r) habit_id = Some h"
    and "UpdateHabitRequest_valid q"
    and "request_name q \<noteq> None \<or> request_description q \<noteq> None
         \<or> request_status q \<noteq> None"
  shows "(\<exists>h'. update_habit habit_id q r =
                (Inr h', r\<lparr>habits := AList.update habit_id h' (habits r)\<rparr>)
          \<and> name h' = (case request_name q of None \<Rightarrow> name h | Some n \<Rightarrow> n)
          \<and> description h' =
               (case request_description q of None \<Rightarrow> description h | Some d \<Rightarrow> Some d)
          \<and> status h' = (case request_status q of None \<Rightarrow> status h | Some s \<Rightarrow> s)
          \<and> id_field h' = id_field h
          \<and> streak_days h' = streak_days h
          \<and> last_completed_at h' = last_completed_at h)
         \<and> (\<forall>i q' (r' :: 'c repository) k.
               map_option (\<lambda>x. (id_field x, streak_days x, last_completed_at x))
                 (map_of (habits (snd (update_habit i q' r'))) k)
               = map_option (\<lambda>x. (id_field x, streak_days x, last_completed_at x))
                 (map_of (habits r') k))"
  using update_success[OF reachable_inv[OF assms(1)] assms(2-4)]
  by (simp add: Let_def update_habit_keeps_streak)

theorem update_habit_frame_witness:
  "reachable 738905 store_completed
   \<and> UpdateHabitRequest_valid mark_pending
   \<and> update_habit 1 mark_pending store_completed =
       (Inr (exercise_habit\<lparr>streak_days := 1, last_completed_at := Some 738900\<rparr>),
        \<lparr>habits = [(1, exercise_habit\<lparr>streak_days := 1, last_completed_at := Some 738900\<rparr>)],
         next_id = 2\<rparr>)"
proof -
  let ?h = "exercise_habit\<lparr>status := Completed, streak_days := 1,
                            last_completed_at := Some 738900\<rparr>"
  have r: "reachable 738905 store_completed"
    by (rule reachable_store_completed) simp
  have l: "map_of (habits store_completed) 1 = Some ?h"
    by (simp add: store_completed_eq)
  have v: "UpdateHabitRequest_valid mark_pending"
    by (simp add: UpdateHabitRequest_valid_def description_ok_def mark_pending_def)
  have n: "request_name mark_pending \<noteq> None \<or> request_description mark_pending \<noteq> None
           \<or> request_status mark_pending \<noteq> None"
    by (simp add: mark_pending_def)
  from update_habit_frame[OF r l v n, THEN conjunct1] obtain h' where
    u: "update_habit 1 mark_pending store_completed =
          (Inr h', store_completed\<lparr>habits := AList.update 1 h' (habits store_completed)\<rparr>)"
    and f: "name h' = name ?h" "description h' = description ?h" "status h' = Pending"
      "id_field h' = id_field ?h" "streak_days h' = streak_days ?h"
      "last_completed_at h' = last_completed_at ?h"
    by (auto simp: mark_pending_def)
  from f have "h' = exercise_habit\<lparr>streak_days := 1, last_completed_at := Some 738900\<rparr>"
    by (simp add: exercise_habit_def)
  with u r v show ?thesis
    by (simp add: store_completed_eq)
qed

section \<open>Statistics\<close>

lemma count_if_length: "count_if c xs = int (length (filter c xs))"
  by (induction xs) (auto simp: count_if_def)

lemma keys_with_filter:
  assumes "distinct (map fst xs)"
  shows "{k. \<exists>v. map_of xs k = Some v \<and> P v} = set (map fst (filter (\<lambda>e. P (snd e)) xs))"
  using assms by (auto simp: image_iff)

lemma length_filter_card:
  assumes "distinct (map fst xs)"
  shows "length (filter (P \<circ> snd) xs) = card {k. \<exists>v. map_of xs k = Some v \<and> P v}"
proof -
  have "distinct (map fst (filter (\<lambda>e. P (snd e)) xs))"
    using assms by (rule distinct_map_filter)
  then have "card (set (map fst (filter (\<lambda>e. P (snd e)) xs)))
              = length (filter (\<lambda>e. P (snd e)) xs)"
    using distinct_card by fastforce
  then show ?thesis
    by (simp only: keys_with_filter[OF assms] comp_def)
qed

lemma length_card_dom:
  assumes "distinct (map fst xs)"
  shows "length xs = card (dom (map_of xs))"
  using assms by (simp add: dom_map_of_conv_image_fst distinct_card flip: set_map)

text \<open>
  C5. On a reachable store, \<open>get_stats\<close> returns the store as it was given and the counts:
  \<open>total_habits\<close> is the number of keys of the store, \<open>completed_today\<close> the number of keys
  whose habit has \<open>last_completed_at\<close> equal to today, whatever its \<open>status\<close>, and
  \<open>active_streaks_ge_3\<close> the number of keys whose habit has \<open>streak_days \<ge> 3\<close>.
\<close>

theorem get_stats_counts:
  assumes "reachable today r"
  shows "get_stats today r =
     (Inr \<lparr>total_habits = int (card (dom (map_of (habits r)))),
           completed_today =
             int (card {k. \<exists>h. map_of (habits r) k = Some h
                              \<and> last_completed_at h = Some today}),
           active_streaks_ge_3 =
             int (card {k. \<exists>h. map_of (habits r) k = Some h \<and> 3 \<le> streak_days h})\<rparr>,
      r)"
proof -
  from reachable_inv[OF assms] have d: "distinct (map fst (habits r))"
    by (simp add: repo_inv_def)
  show ?thesis
    by (simp add: get_stats_def get_all_def Let_def count_if_length new_StatsResponse_def
        StatsResponse_valid_def length_filter_card[OF d] length_card_dom[OF d])
qed

theorem get_stats_counts_witness:
  "reachable 738900 store_completed
   \<and> get_stats 738900 store_completed =
       (Inr \<lparr>total_habits = int (card (dom (map_of (habits store_completed)))),
             completed_today =
               int (card {k. \<exists>h. map_of (habits store_completed) k = Some h
                                \<and> last_completed_at h = Some 738900}),
             active_streaks_ge_3 =
               int (card {k. \<exists>h. map_of (habits store_completed) k = Some h
                                \<and> 3 \<le> streak_days h})\<rparr>,
        store_completed)
   \<and> get_stats 738900 store_completed =
       (Inr \<lparr>total_habits = 1, completed_today = 1, active_streaks_ge_3 = 0\<rparr>,
        store_completed)"
proof -
  have r: "reachable 738900 store_completed"
    by (rule reachable_store_completed) simp
  have e: "get_stats 738900 store_completed =
       (Inr \<lparr>total_habits = 1, completed_today = 1, active_streaks_ge_3 = 0\<rparr>,
        store_completed)"
    by (simp add: get_stats_def get_all_def store_completed_eq count_if_def
        new_StatsResponse_def StatsResponse_valid_def exercise_habit_def)
  from get_stats_counts[OF r] r e show ?thesis
    by (intro conjI)
qed

section \<open>Identifiers\<close>

lemma next_id_update_habit: "next_id (snd (update_habit k q r)) = next_id r"
  by (auto simp: update_habit_def update_def split: sum.splits option.splits prod.splits)

lemma next_id_delete_habit: "next_id (snd (delete_habit k r)) = next_id r"
  by (auto simp: delete_habit_def delete_def)

lemma next_id_complete: "next_id (snd (complete_habit_today t k d r)) = next_id r"
  by (auto simp: complete_habit_today_def update_def Let_def
      split: sum.splits option.splits prod.splits)

lemma create_habit_cases:
  "create_habit q r =
     (if CreateHabitRequest_valid q
      then (let h = \<lparr>name = create_name q, description = create_description q,
                      status = Pending, streak_days = 0, last_completed_at = None,
                      id_field = next_id r\<rparr>
            in (Inr h, r\<lparr>habits := AList.update (next_id r) h (habits r),
                          next_id := next_id r + 1\<rparr>))
      else (Inl ValidationError, r))"
  by (simp add: create_habit_def create_def new_Habit_def Habit_valid_def
      CreateHabitRequest_valid_def Let_def)

text \<open>
  Whatever the calls and the store they start in, the identifiers handed out are the
  consecutive integers from the store's \<open>next_id\<close>.
\<close>

lemma created_ids_from:
  "created_ids calls r = [next_id r .. next_id r + int (length (created_ids calls r)) - 1]"
proof (induction calls arbitrary: r)
  case Nil
  then show ?case by simp
next
  case (Cons c calls)
  show ?case
  proof (cases c)
    case (Create q)
    show ?thesis
    proof (cases "CreateHabitRequest_valid q")
      case True
      with Create Cons[of "snd (create_habit q r)"] show ?thesis
        by (simp add: create_habit_cases Let_def upto_rec1[of "next_id r"])
    next
      case False
      with Create Cons[of r] show ?thesis
        by (simp add: create_habit_cases)
    qed
  next
    case (Update k q)
    with Cons[of "snd (update_habit k q r)"] show ?thesis
      by (simp add: next_id_update_habit)
  next
    case (Delete k)
    with Cons[of "snd (delete_habit k r)"] show ?thesis
      by (simp add: next_id_delete_habit)
  next
    case (Complete t k d)
    with Cons[of "snd (complete_habit_today t k d r)"] show ?thesis
      by (simp add: next_id_complete)
  qed
qed

lemma length_created_ids:
  "list_all CreateHabitRequest_valid (create_requests calls) \<Longrightarrow>
   length (created_ids calls r) = length (create_requests calls)"
proof (induction calls arbitrary: r)
  case Nil
  then show ?case by simp
next
  case (Cons c calls)
  then show ?case
    by (cases c) (simp_all add: create_habit_cases Let_def)
qed

text \<open>
  C6. In any sequence of engine calls on a fresh store that creates \<open>N\<close> habits (its
  \<open>create_habit\<close> calls, each with a \<open>CreateHabitRequest\<close>), with deletions, updates and
  completions interleaved at will, the identifiers assigned are \<open>1, 2, ..., N\<close> in this
  order: distinct, strictly increasing, starting at 1 and growing by 1 per creation, so
  that no identifier is handed out again after its habit is deleted.
\<close>

theorem identifiers_monotone:
  assumes "list_all CreateHabitRequest_valid (create_requests calls)"
  shows "created_ids calls HabitRepository = [1 .. int (length (create_requests calls))]
         \<and> distinct (created_ids calls HabitRepository)
         \<and> sorted_wrt (<) (created_ids calls HabitRepository)"
proof -
  have "created_ids calls (HabitRepository :: 'a repository)
          = [1 .. int (length (create_requests calls))]"
    using created_ids_from[of calls "HabitRepository :: 'a repository"]
      length_created_ids[OF assms, of HabitRepository]
    by (simp add: HabitRepository_def)
  then show ?thesis
    by simp
qed

theorem identifiers_monotone_witness:
  "list_all CreateHabitRequest_valid (create_requests example_calls)
   \<and> created_ids example_calls HabitRepository = [1, 2, 3]"
proof -
  have v: "list_all CreateHabitRequest_valid (create_requests example_calls)"
    by (simp add: example_calls_def exercise_def CreateHabitRequest_valid_def
        description_ok_def)
  have "length (create_requests example_calls) = 3"
    by (simp add: example_calls_def)
  with identifiers_monotone[OF v] v show ?thesis
    by (simp add: upto_rec1)
qed

section \<open>Validation and the order of checks\<close>

text \<open>
  C7, in the form that holds of the code. \<open>create_habit\<close> makes no check of its own and never raises
  \<open>InvalidHabitData\<close>. A name whose length is outside 1 to 80, or a description longer than
  280, is rejected by the constructor of \<open>Habit\<close> with pydantic's \<open>ValidationError\<close>, and
  the store is left as it was. With a valid name and description it stores and returns,
  under the next identifier, the habit with \<open>status = pending\<close>, \<open>streak_days = 0\<close> and
  \<open>last_completed_at = None\<close>.
\<close>

theorem create_habit_validation:
  "create_habit q r =
     (if 1 \<le> length (create_name q) \<and> length (create_name q) \<le> 80
         \<and> (case create_description q of None \<Rightarrow> True | Some d \<Rightarrow> length d \<le> 280)
      then (let h = \<lparr>name = create_name q, description = create_description q,
                      status = Pending, streak_days = 0, last_completed_at = None,
                      id_field = next_id r\<rparr>
            in (Inr h, r\<lparr>habits := AList.update (next_id r) h (habits r),
                          next_id := next_id r + 1\<rparr>))
      else (Inl ValidationError, r))"
  by (simp add: create_habit_cases CreateHabitRequest_valid_def description_ok_def)

theorem create_habit_validation_witness:
  "create_habit exercise HabitRepository =
     (Inr exercise_habit, \<lparr>habits = [(1, exercise_habit)], next_id = 2\<rparr>)"
  using create_habit_validation[of exercise HabitRepository]
  by (simp add: exercise_def exercise_habit_def HabitRepository_def Let_def)

text \<open>
  C7 in its stated form does not hold: with the empty name, \<open>create_habit\<close> on a fresh store fails with
  \<open>ValidationError\<close>, which is not \<open>InvalidHabitData\<close>.
\<close>

theorem create_habit_not_InvalidHabitData:
  "length (create_name \<lparr>create_name = '''', create_description = None\<rparr>) < 1
   \<and> fst (create_habit \<lparr>create_name = '''', create_description = None\<rparr>
            (HabitRepository :: char repository)) = Inl ValidationError
   \<and> \<not> is_InvalidHabitData
         (fst (create_habit \<lparr>create_name = '''', create_description = None\<rparr>
                 (HabitRepository :: char repository)))"
  by (simp add: create_habit_def create_def new_Habit_def Habit_valid_def)

text \<open>
  C8, in the form that holds of the code. For a positive identifier and a request whose three fields are all
  null, \<open>update_habit\<close> first looks the habit up: it fails with \<open>HabitNotFound\<close> when no
  habit has this identifier, and with \<open>InvalidHabitData\<close> (at least one field must be
  provided) when one has. Either way the store is left as it was.
\<close>

theorem update_habit_empty:
  assumes "0 < habit_id" and "request_name q = None" and "request_description q = None"
    and "request_status q = None"
  shows "update_habit habit_id q r =
     (case map_of (habits r) habit_id of
        None \<Rightarrow> Inl (HabitNotFound habit_id)
      | Some h \<Rightarrow> Inl (InvalidHabitData Field_update_request Value_empty At_least_one_field),
      r)"
  using assms
  by (simp add: update_habit_def get_habit_by_id_def get_by_id_def split: option.splits)

theorem update_habit_empty_witness:
  "update_habit 1 empty_request store_created =
     (Inl (InvalidHabitData Field_update_request Value_empty At_least_one_field), store_created)
   \<and> update_habit 2 empty_request store_created = (Inl (HabitNotFound 2), store_created)"
  using update_habit_empty[of 1 empty_request store_created]
    update_habit_empty[of 2 empty_request store_created]
  by (simp add: empty_request_def store_created_eq)

text \<open>
  C8 in its stated form does not hold: on a fresh store, where no habit has identifier 1, \<open>update_habit\<close>
  with identifier 1 and the all-null request fails with \<open>HabitNotFound\<close>, not with
  \<open>InvalidHabitData\<close>.
\<close>

theorem update_habit_empty_missing:
  "0 < (1::int)
   \<and> fst (update_habit 1 empty_request HabitRepository) = Inl (HabitNotFound 1)
   \<and> \<not> is_InvalidHabitData (fst (update_habit 1 empty_request HabitRepository))"
  by (simp add: update_habit_def get_habit_by_id_def get_by_id_def HabitRepository_def
      empty_request_def)

text \<open>
  C9. \<open>complete_habit_today\<close> validates its arguments before it fetches the habit, on any
  store: a non-positive identifier fails with \<open>InvalidHabitData\<close> on \<open>habit_id\<close>; with a
  positive identifier, a completion date strictly after today fails with
  \<open>InvalidHabitData\<close> on \<open>completion_date\<close> (no future dates), whether or not a habit has
  this identifier; so a date after today fails with \<open>InvalidHabitData\<close> for every
  identifier. \<open>HabitNotFound\<close> is raised only when the identifier is positive, the
  completion date (today when omitted) is not after today, and no habit has the
  identifier. The store is left as it was.
\<close>

theorem complete_validates_first:
  "(habit_id \<le> 0 \<longrightarrow>
      complete_habit_today today habit_id d r =
        (Inl (InvalidHabitData Field_habit_id (Value_int habit_id) Positive_integer), r))
   \<and> (0 < habit_id \<and> today < D \<longrightarrow>
      complete_habit_today today habit_id (Some D) r =
        (Inl (InvalidHabitData Field_completion_date (Value_date D) No_future_dates), r))
   \<and> (today < D \<longrightarrow> is_InvalidHabitData (fst (complete_habit_today today habit_id (Some D) r)))
   \<and> (fst (complete_habit_today today habit_id d r) = Inl (HabitNotFound k) \<longrightarrow>
      0 < habit_id \<and> (case d of None \<Rightarrow> today | Some D' \<Rightarrow> D') \<le> today
      \<and> k = habit_id \<and> map_of (habits r) habit_id = None)"
  by (auto simp: complete_habit_today_def Let_def get_habit_by_id_def get_by_id_def
      update_def new_Habit_def split: option.splits if_splits)

theorem complete_validates_first_witness:
  "complete_habit_today 738900 0 None store_created =
     (Inl (InvalidHabitData Field_habit_id (Value_int 0) Positive_integer), store_created)
   \<and> map_of (habits store_created) 999 = None
   \<and> complete_habit_today 738900 999 (Some 738901) store_created =
       (Inl (InvalidHabitData Field_completion_date (Value_date 738901) No_future_dates),
        store_created)
   \<and> fst (complete_habit_today 738900 999 (Some 738900) store_created)
       = Inl (HabitNotFound 999)"
proof -
  have "fst (complete_habit_today 738900 999 (Some 738900) store_created)
       = Inl (HabitNotFound 999)"
    by (simp add: complete_habit_today_def get_habit_by_id_def get_by_id_def store_created_eq)
  then show ?thesis
    using complete_validates_first[of 0 738900 None store_created]
      complete_validates_first[of 999 738900 _ store_created 738901]
      complete_validates_first[of 999 738900 "Some 738900" store_created _ 999]
    by simp
qed

section \<open>Status without completion\<close>

text \<open>
  C10. There is a reachable state, the store right after "Exercise" is created, in which
  \<open>update_habit\<close> with \<open>status = "completed"\<close> on the never completed habit succeeds and
  yields a habit with \<open>status = completed\<close>, \<open>streak_days = 0\<close> and
  \<open>last_completed_at = None\<close>; in the resulting store, whatever the day, \<open>get_stats\<close> counts
  this habit in \<open>total_habits\<close> only, neither in \<open>completed_today\<close> nor in
  \<open>active_streaks_ge_3\<close>.
\<close>

theorem status_completed_without_completion:
  "reachable today store_created
   \<and> map_of (habits store_created) 1 = Some exercise_habit
   \<and> last_completed_at exercise_habit = None
   \<and> update_habit 1 mark_completed store_created =
       (Inr (exercise_habit\<lparr>status := Completed\<rparr>),
        \<lparr>habits = [(1, exercise_habit\<lparr>status := Completed\<rparr>)], next_id = 2\<rparr>)
   \<and> streak_days (exercise_habit\<lparr>status := Completed\<rparr>) = 0
   \<and> last_completed_at (exercise_habit\<lparr>status := Completed\<rparr>) = None
   \<and> get_stats today \<lparr>habits = [(1, exercise_habit\<lparr>status := Completed\<rparr>)], next_id = 2\<rparr> =
       (Inr \<lparr>total_habits = 1, completed_today = 0, active_streaks_ge_3 = 0\<rparr>,
        \<lparr>habits = [(1, exercise_habit\<lparr>status := Completed\<rparr>)], next_id = 2\<rparr>)"
proof -
  have u: "update_habit 1 mark_completed store_created =
       (Inr (exercise_habit\<lparr>status := Completed\<rparr>),
        \<lparr>habits = [(1, exercise_habit\<lparr>status := Completed\<rparr>)], next_id = 2\<rparr>)"
    by (simp add: update_habit_def get_habit_by_id_def get_by_id_def update_def
        apply_updates_def new_Habit_def Habit_valid_def description_ok_def store_created_eq
        mark_completed_def exercise_habit_def)
  have s: "get_stats today \<lparr>habits = [(1, exercise_habit\<lparr>status := Completed\<rparr>)], next_id = 2\<rparr> =
       (Inr \<lparr>total_habits = 1, completed_today = 0, active_streaks_ge_3 = 0\<rparr>,
        \<lparr>habits = [(1, exercise_habit\<lparr>status := Completed\<rparr>)], next_id = 2\<rparr>)"
    by (simp add: get_stats_def get_all_def count_if_def new_StatsResponse_def
        StatsResponse_valid_def exercise_habit_def)
  from u s reachable_store_created[of today] show ?thesis
    by (simp add: store_created_eq exercise_habit_def)
qed

end
